theory Spec2Isabelle
  imports Complex_Main "HOL-Library.Word"
begin

unbundle bit_operations_syntax

section \<open>Errors raised by the platform and by the services\<close>

text \<open>
  Every exception that the modelled code can meet is a value. \<open>InvalidCharacterError\<close> is
  what \<open>atob\<close> throws, \<open>RangeError\<close> what a typed-array constructor throws,
  \<open>NotSupportedError\<close> what \<open>createBuffer\<close> throws, and \<open>Error msg\<close> is
  \<open>new Error(msg)\<close>.
\<close>

datatype js_error = InvalidCharacterError | RangeError | NotSupportedError | Error string

section \<open>PCM decoder (services/geminiService: base64ToBytes, decodePCM)\<close>

subsection \<open>The platform's atob\<close>

text \<open>
  \<open>atob\<close> is the forgiving base64 decoder of the HTML standard: ASCII whitespace is
  removed; when the remaining length is a multiple of four, one or two trailing \<open>=\<close> are
  removed; a remaining length of 1 modulo 4, or any character outside the alphabet, fails;
  every four characters give three bytes, and two or three left-over characters give one
  or two bytes, the unused low bits being dropped. The result is a binary string, modelled
  as the list of its character codes.
\<close>

definition is_ascii_whitespace :: "char \<Rightarrow> bool" where
  "is_ascii_whitespace c = (c \<in> set [CHR 0x09, CHR 0x0A, CHR 0x0C, CHR 0x0D, CHR 0x20])"

definition base64_alphabet :: string where
  "base64_alphabet = ''ABCDEFGHIJKLMNOPQRSTUVWXYZabcdefghijklmnopqrstuvwxyz0123456789+/''"

fun index_of :: "'a \<Rightarrow> 'a list \<Rightarrow> nat option" where
  "index_of x [] = None"
| "index_of x (y # ys) = (if x = y then Some 0 else map_option Suc (index_of x ys))"

fun strip_padding :: "string \<Rightarrow> string" where
  "strip_padding s =
     (if length s mod 4 = 0 then
        (if 2 \<le> length s \<and> drop (length s - 2) s = ''=='' then take (length s - 2) s
         else if 1 \<le> length s \<and> drop (length s - 1) s = ''='' then take (length s - 1) s
         else s)
      else s)"

fun sextets :: "string \<Rightarrow> nat list option" where
  "sextets [] = Some []"
| "sextets (c # cs) =
     (case index_of c base64_alphabet of
        None \<Rightarrow> None
      | Some v \<Rightarrow> map_option ((#) v) (sextets cs))"

fun octets :: "nat list \<Rightarrow> nat list" where
  "octets (a # b # c # d # rest) =
     (let n = ((a * 64 + b) * 64 + c) * 64 + d
      in n div 65536 # (n div 256) mod 256 # n mod 256 # octets rest)"
| "octets [a, b, c] = (let n = ((a * 64 + b) * 64 + c) div 4 in [n div 256, n mod 256])"
| "octets [a, b] = [(a * 64 + b) div 16]"
| "octets _ = []"

definition atob :: "string \<Rightarrow> js_error + nat list" where
  "atob data =
     (let d = strip_padding (filter (\<lambda>c. \<not> is_ascii_whitespace c) data)
      in if length d mod 4 = 1 then Inl InvalidCharacterError
         else case sextets d of
                None \<Rightarrow> Inl InvalidCharacterError
              | Some vs \<Rightarrow> Inr (octets vs))"

subsection \<open>base64ToBytes\<close>

text \<open>
  The loop stores \<open>binaryString.charCodeAt(i)\<close> into a \<open>Uint8Array\<close> of the string's
  length; a store into a \<open>Uint8Array\<close> keeps the value modulo 256, which is what
  \<open>of_nat\<close> into \<open>8 word\<close> does.
\<close>

definition base64ToBytes :: "string \<Rightarrow> js_error + 8 word list" where
  "base64ToBytes base64 =
     (case atob base64 of
        Inl e \<Rightarrow> Inl e
      | Inr binaryString \<Rightarrow> Inr (map of_nat binaryString))"

subsection \<open>The Int16Array view and the audio buffer\<close>

text \<open>
  \<open>new Int16Array(buffer)\<close> over a whole \<open>ArrayBuffer\<close> throws a \<open>RangeError\<close> when the
  byte length is not a multiple of the element size 2 (ECMAScript, typed-array
  initialisation from an array buffer); otherwise element \<open>i\<close> is read from bytes \<open>2 i\<close>
  and \<open>2 i + 1\<close>, low byte first on the little-endian platforms the application runs on.
\<close>

fun int16_elements :: "8 word list \<Rightarrow> 16 word list" where
  "int16_elements (lo # hi # rest) = (push_bit 8 (ucast hi) OR ucast lo) # int16_elements rest"
| "int16_elements _ = []"

definition Int16Array :: "8 word list \<Rightarrow> js_error + 16 word list" where
  "Int16Array buffer =
     (if length buffer mod 2 \<noteq> 0 then Inl RangeError else Inr (int16_elements buffer))"

text \<open>
  An \<open>AudioBuffer\<close>: \<open>frames\<close> is its \<open>length\<close> property. The samples are the values
  held by the \<open>Float32Array\<close> of each channel. Every value the decoder stores is a 16-bit
  integer divided by \<open>2 ^ 15\<close>; such a number is a binary32 value (lemma
  \<open>sample_float32_exact\<close> below), so neither the division in double precision nor the
  store rounds, and the samples are modelled exactly as rationals.
\<close>

record AudioBuffer =
  numberOfChannels :: nat
  frames :: nat
  sampleRate :: nat
  channelData :: "rat list list"

text \<open>
  \<open>BaseAudioContext.createBuffer\<close> throws a \<open>NotSupportedError\<close> when an argument is
  zero (Web Audio API: the number of channels, the length in frames and the sample rate
  must each be at least 1 and inside the nominal range); one channel at 24000 Hz, the
  only values the decoder passes, is inside every implementation's range. The new buffer
  is silent.
\<close>

definition createBuffer :: "nat \<Rightarrow> nat \<Rightarrow> nat \<Rightarrow> js_error + AudioBuffer" where
  "createBuffer numChannels frameCount rate =
     (if numChannels = 0 \<or> frameCount = 0 \<or> rate = 0 then Inl NotSupportedError
      else Inr \<lparr>numberOfChannels = numChannels, frames = frameCount, sampleRate = rate,
                channelData = replicate numChannels (replicate frameCount 0)\<rparr>)"

subsection \<open>decodePCM\<close>

text \<open>
  The audio context is used for \<open>createBuffer\<close> only. \<open>frameCount\<close> is
  \<open>int16Data.length / numChannels\<close> with \<open>numChannels = 1\<close>, so the division is exact.
  The two loops fill channel \<open>channel\<close> at index \<open>i\<close> with
  \<open>int16Data[i * numChannels + channel] / 32768.0\<close>; the index is below
  \<open>int16Data.length\<close> for every \<open>i < frameCount\<close>.
\<close>

definition decodePCM :: "string \<Rightarrow> js_error + AudioBuffer" where
  "decodePCM base64Data =
     (case base64ToBytes base64Data of
        Inl e \<Rightarrow> Inl e
      | Inr bytes \<Rightarrow>
          (let rate = 24000; numChannels = 1 in
           case Int16Array bytes of
             Inl e \<Rightarrow> Inl e
           | Inr int16Data \<Rightarrow>
               (let frameCount = length int16Data div numChannels in
                case createBuffer numChannels frameCount rate of
                  Inl e \<Rightarrow> Inl e
                | Inr buffer \<Rightarrow>
                    Inr (buffer\<lparr>channelData :=
                           map (\<lambda>channel.
                                  map (\<lambda>i. of_int (sint (int16Data ! (i * numChannels + channel)))
                                             / 32768)
                                      [0..<frameCount])
                               [0..<numChannels]\<rparr>))))"

text \<open>
  The byte sequence that encodes a list of signed 16-bit samples, low byte first: the
  input the decoder is meant for.
\<close>

definition int16_le_bytes :: "16 word list \<Rightarrow> 8 word list" where
  "int16_le_bytes samples = concat (map (\<lambda>s. [ucast s, ucast (drop_bit 8 s)]) samples)"

text \<open>
  A sufficient condition for a rational to be a binary32 value: it is \<open>m / 2 ^ e\<close>
  with a significand below \<open>2 ^ 24\<close> and an exponent no smaller than that of the
  least subnormal.
\<close>

definition float32_exact :: "rat \<Rightarrow> bool" where
  "float32_exact q = (\<exists>m :: int. \<exists>e :: nat. \<bar>m\<bar> < 2 ^ 24 \<and> e \<le> 149 \<and> q = of_int m / 2 ^ e)"

section \<open>Data model (types.ts)\<close>

text \<open>
  The enumeration \<open>Subject\<close> as \<open>types.ts\<close> declares it: eight members, each with its
  string value. At run time the enumeration is an object from member names to values;
  \<open>Subject_member\<close> is the property read \<open>Subject.NAME\<close>, with \<open>None\<close> for
  \<open>undefined\<close>.
\<close>

datatype Subject = ENGLISH | URDU | MATHS | PHYSICS | CHEMISTRY | BIOLOGY | COMPUTER | GENERAL

fun subject_value :: "Subject \<Rightarrow> string" where
  "subject_value ENGLISH = ''English''"
| "subject_value URDU = ''Urdu''"
| "subject_value MATHS = ''Mathematics''"
| "subject_value PHYSICS = ''Physics''"
| "subject_value CHEMISTRY = ''Chemistry''"
| "subject_value BIOLOGY = ''Biology''"
| "subject_value COMPUTER = ''Computer Science''"
| "subject_value GENERAL = ''General Help''"

definition Subject_members :: "(string \<times> Subject) list" where
  "Subject_members =
     [(''ENGLISH'', ENGLISH), (''URDU'', URDU), (''MATHS'', MATHS), (''PHYSICS'', PHYSICS),
      (''CHEMISTRY'', CHEMISTRY), (''BIOLOGY'', BIOLOGY), (''COMPUTER'', COMPUTER),
      (''GENERAL'', GENERAL)]"

definition Subject_member :: "string \<Rightarrow> Subject option" where
  "Subject_member name = map_of Subject_members name"

text \<open>
  \<open>SUBJECTS_CONFIG\<close> (App.tsx) lists the subjects offered on the home screen; each
  identifier is a property read on the enumeration object.
\<close>

record SubjectConfig =
  config_id :: "Subject option"
  icon :: string
  color :: string

definition SUBJECTS_CONFIG :: "SubjectConfig list" where
  "SUBJECTS_CONFIG =
     [\<lparr>config_id = Subject_member ''ENGLISH'', icon = ''fas fa-book-open'', color = ''bg-indigo-500''\<rparr>,
      \<lparr>config_id = Subject_member ''URDU'', icon = ''fas fa-pen-nib'', color = ''bg-emerald-600''\<rparr>,
      \<lparr>config_id = Subject_member ''MATHS'', icon = ''fas fa-calculator'', color = ''bg-rose-500''\<rparr>,
      \<lparr>config_id = Subject_member ''PHYSICS'', icon = ''fas fa-atom'', color = ''bg-violet-600''\<rparr>,
      \<lparr>config_id = Subject_member ''CHEMISTRY'', icon = ''fas fa-flask'', color = ''bg-amber-500''\<rparr>,
      \<lparr>config_id = Subject_member ''BIOLOGY'', icon = ''fas fa-dna'', color = ''bg-teal-500''\<rparr>,
      \<lparr>config_id = Subject_member ''COMPUTER'', icon = ''fas fa-laptop-code'', color = ''bg-blue-500''\<rparr>,
      \<lparr>config_id = Subject_member ''PAK_STUDIES'', icon = ''fas fa-landmark'', color = ''bg-green-600''\<rparr>]"

text \<open>The nine subject names that the specification lists.\<close>

definition spec_subjects :: "string list" where
  "spec_subjects =
     [''English'', ''Urdu'', ''Mathematics'', ''Physics'', ''Chemistry'', ''Biology'',
      ''Computer Science'', ''Pakistan Studies'', ''General Help'']"

text \<open>
  A message. The optional fields of the interface are options; \<open>msg_id\<close> and
  \<open>msg_text\<close> are the fields \<open>id\<close> and \<open>text\<close>. Times are the millisecond
  counts returned by \<open>Date.now()\<close>.
\<close>

record Source =
  title :: string
  uri :: string

datatype Role = User | Model

record Message =
  msg_id :: string
  role :: Role
  msg_text :: string
  timestamp :: nat
  sources :: "Source list option"
  imageUrl :: "string option"
  imageError :: "bool option"
  isError :: "bool option"

datatype ImageStyle = Scientific | Cartoon | Realistic | Blueprint | LowPoly

record ChatState =
  messages :: "Message list"
  isLoading :: bool
  selectedSubject :: "Subject option"



text \<open>
  \<open>Date.now().toString()\<close>: the decimal numeral of a natural number.
\<close>

definition digit_char :: "nat \<Rightarrow> char" where
  "digit_char d = ''0123456789'' ! d"

function string_of_nat :: "nat \<Rightarrow> string" where
  "string_of_nat n =
     (if n < 10 then [digit_char n]
      else string_of_nat (n div 10) @ [digit_char (n mod 10)])"
  by pat_completeness auto
termination
  by (relation "measure (\<lambda>n. n)") simp_all

declare string_of_nat.simps [simp del]


subsection \<open>Greeting, subject selection, clearing\<close>

text \<open>
  Both greeting templates have the same text around the interpolated subject; a
  \<open>null\<close> subject interpolates as \<open>null\<close>. \<open>handleClearChat\<close> reads the subject
  of the rendered state (\<open>seen\<close>) for its guard and updates the current state
  (\<open>prev\<close>); \<open>confirmed\<close> is the answer of \<open>window.confirm\<close>.
\<close>

definition greeting :: "string \<Rightarrow> string" where
  "greeting subject =
     ''Assalam-o-Alaikum! I am your '' @ subject @ '' tutor. '' @ [CHR 0x0A]
     @ ''Ask me any question, and I will explain it simply for you. '' @ [CHR 0x0A]
     @ ''(Mujhse koi bhi sawal pouchein, main asani se samjhaunga).''"

definition template_subject :: "Subject option \<Rightarrow> string" where
  "template_subject s = (case s of None \<Rightarrow> ''null'' | Some x \<Rightarrow> subject_value x)"

definition handleSubjectSelect :: "Subject \<Rightarrow> nat \<Rightarrow> ChatState" where
  "handleSubjectSelect subject now =
     \<lparr>messages = [\<lparr>msg_id = ''welcome'', role = Model,
                    msg_text = greeting (subject_value subject), timestamp = now,
                    sources = None, imageUrl = None, imageError = None, isError = None\<rparr>],
      isLoading = False,
      selectedSubject = Some subject\<rparr>"

definition handleBackToHome :: ChatState where
  "handleBackToHome = \<lparr>messages = [], isLoading = False, selectedSubject = None\<rparr>"

definition handleClearChat :: "ChatState \<Rightarrow> bool \<Rightarrow> nat \<Rightarrow> nat \<Rightarrow> ChatState \<Rightarrow> ChatState" where
  "handleClearChat seen confirmed now1 now2 prev =
     (if selectedSubject seen = None then prev
      else if confirmed then
        prev\<lparr>messages := [\<lparr>msg_id = string_of_nat now1, role = Model,
                             msg_text = greeting (template_subject (selectedSubject prev)),
                             timestamp = now2,
                             sources = None, imageUrl = None, imageError = None,
                             isError = None\<rparr>],
             isLoading := False\<rparr>
      else prev)"

subsection \<open>generateTutorResponse\<close>

text \<open>
  The function sends the prompt, the history and the subject to the external model and
  awaits its answer; \<open>outcome\<close> is that answer, \<open>Inl\<close> when the call throws. Of the
  response, the code reads \<open>text\<close> and
  \<open>candidates?.[0]?.groundingMetadata?.groundingChunks\<close>. \<open>or_else v d\<close> is
  \<open>v || d\<close> on an optional string: the default replaces \<open>undefined\<close> and the empty
  string.
\<close>

record WebChunk =
  web_title :: "string option"
  web_uri :: string

record GroundingChunk =
  web :: "WebChunk option"

record GroundingMetadata =
  groundingChunks :: "GroundingChunk list option"

record Candidate =
  groundingMetadata :: "GroundingMetadata option"

record ApiResponse =
  response_text :: "string option"
  candidates :: "Candidate list option"

record GenerateResponseResult =
  res_text :: string
  res_sources :: "Source list"

definition or_else :: "string option \<Rightarrow> string \<Rightarrow> string" where
  "or_else v d = (case v of None \<Rightarrow> d | Some s \<Rightarrow> if s = [] then d else s)"

definition no_answer_text :: string where
  "no_answer_text = ''Sorry, I couldn'' @ [CHR 0x27] @ ''t generate an answer. Please try again.''"

definition first_groundingChunks :: "ApiResponse \<Rightarrow> GroundingChunk list option" where
  "first_groundingChunks response =
     (case candidates response of
        None \<Rightarrow> None
      | Some [] \<Rightarrow> None
      | Some (c # _) \<Rightarrow>
          (case groundingMetadata c of None \<Rightarrow> None | Some gm \<Rightarrow> groundingChunks gm))"

fun chunk_sources :: "GroundingChunk list \<Rightarrow> Source list" where
  "chunk_sources [] = []"
| "chunk_sources (chunk # chunks) =
     (case web chunk of
        None \<Rightarrow> chunk_sources chunks
      | Some w \<Rightarrow>
          \<lparr>title = or_else (web_title w) ''Reference Link'', uri = web_uri w\<rparr>
          # chunk_sources chunks)"

definition generateTutorResponse :: "js_error + ApiResponse \<Rightarrow> js_error + GenerateResponseResult" where
  "generateTutorResponse outcome =
     (case outcome of
        Inl error \<Rightarrow> Inl (Error ''Failed to get response from Ustaad AI.'')
      | Inr response \<Rightarrow>
          Inr \<lparr>res_text = or_else (response_text response) no_answer_text,
               res_sources = (case first_groundingChunks response of
                                None \<Rightarrow> []
                              | Some chunks \<Rightarrow> chunk_sources chunks)\<rparr>)"

subsection \<open>handleSendMessage\<close>

text \<open>
  \<open>String.prototype.trim\<close> removes white space and line terminators from both ends;
  among the character codes up to 255 these are 9 to 13, 32 and 160.

  The handler is asynchronous. It reads \<open>chatState\<close>, \<open>inputText\<close> and
  \<open>visualStyle\<close> from the render that created it (\<open>seen\<close>), and every state update
  is a function of the state current at that moment (\<open>cur\<close>). It is modelled as three
  functions, one for each stretch between two awaits:
  \<^item> \<open>handleSendMessage_submit\<close>: the guard, the user message and the request to
    \<open>generateTutorResponse\<close>;
  \<^item> \<open>handleSendMessage_text\<close>: what follows the answer of
    \<open>generateTutorResponse\<close>, the reply and the image request, or the \<open>catch\<close>
    block;
  \<^item> \<open>handleSendMessage_image\<close>: the merge that follows the answer of
    \<open>generateEducationalImage\<close>, which returns \<open>null\<close> instead of throwing.
  \<open>calls\<close> logs the requests made to the two collaborators; \<open>Pending\<close> holds the
  variables of the handler that live across an await. \<open>handleSendMessage\<close> runs the
  three parts with nothing in between.
\<close>

definition is_js_whitespace :: "char \<Rightarrow> bool" where
  "is_js_whitespace c =
     (c \<in> set [CHR 0x09, CHR 0x0A, CHR 0x0B, CHR 0x0C, CHR 0x0D, CHR 0x20, CHR 0xA0])"

definition trim :: "string \<Rightarrow> string" where
  "trim s = rev (dropWhile is_js_whitespace (rev (dropWhile is_js_whitespace s)))"

datatype Call =
  TextCall string "(Role \<times> string) list" Subject
| ImageCall string Subject ImageStyle

record AppState =
  chatState :: ChatState
  inputText :: string
  visualStyle :: ImageStyle
  calls :: "Call list"

record Pending =
  pending_text :: string
  pending_subject :: Subject
  pending_style :: ImageStyle

definition network_error_text :: string where
  "network_error_text =
     ''Sorry, mere internet mein kuch masla aa gaya hai. Please dubara try karein. (Network error, please retry).''"

definition handleSendMessage_submit ::
  "AppState \<Rightarrow> nat \<Rightarrow> nat \<Rightarrow> AppState \<Rightarrow> AppState \<times> Pending option" where
  "handleSendMessage_submit seen now1 now2 cur =
     (if trim (inputText seen) = [] \<or> isLoading (chatState seen) then (cur, None)
      else case selectedSubject (chatState seen) of
        None \<Rightarrow> (cur, None)
      | Some subj \<Rightarrow>
          (let userMessage = \<lparr>msg_id = string_of_nat now1, role = User,
                              msg_text = inputText seen, timestamp = now2,
                              sources = None, imageUrl = None, imageError = None,
                              isError = None\<rparr>;
               history = map (\<lambda>m. (role m, msg_text m)) (messages (chatState seen))
           in (cur\<lparr>chatState := (chatState cur)
                        \<lparr>messages := messages (chatState cur) @ [userMessage],
                         isLoading := True\<rparr>,
                    inputText := [],
                    calls := calls cur @ [TextCall (msg_text userMessage) history subj]\<rparr>,
               Some \<lparr>pending_text = msg_text userMessage, pending_subject = subj,
                     pending_style = visualStyle seen\<rparr>)))"

definition handleSendMessage_text ::
  "Pending \<Rightarrow> js_error + GenerateResponseResult \<Rightarrow> nat \<Rightarrow> nat \<Rightarrow> AppState
     \<Rightarrow> AppState \<times> string option" where
  "handleSendMessage_text p outcome now1 now2 cur =
     (case outcome of
        Inr response \<Rightarrow>
          (let botMessageId = string_of_nat (now1 + 1);
               botMessage = \<lparr>msg_id = botMessageId, role = Model,
                             msg_text = res_text response, timestamp = now2,
                             sources = Some (res_sources response),
                             imageUrl = None, imageError = None, isError = None\<rparr>
           in (cur\<lparr>chatState := (chatState cur)
                        \<lparr>messages := messages (chatState cur) @ [botMessage],
                         isLoading := False\<rparr>,
                    calls := calls cur @ [ImageCall (pending_text p) (pending_subject p) (pending_style p)]\<rparr>,
               Some botMessageId))
      | Inl error \<Rightarrow>
          (let errorMessage = \<lparr>msg_id = string_of_nat (now1 + 1), role = Model,
                               msg_text = network_error_text, timestamp = now2,
                               sources = None, imageUrl = None, imageError = None,
                               isError = Some True\<rparr>
           in (cur\<lparr>chatState := (chatState cur)
                        \<lparr>messages := messages (chatState cur) @ [errorMessage],
                         isLoading := False\<rparr>\<rparr>,
               None)))"

definition patchImage :: "string \<Rightarrow> string option \<Rightarrow> Message \<Rightarrow> Message" where
  "patchImage botMessageId imageResult msg =
     (if msg_id msg = botMessageId then
        (case imageResult of
           None \<Rightarrow> msg\<lparr>imageError := Some True\<rparr>
         | Some url \<Rightarrow>
             if url = [] then msg\<lparr>imageError := Some True\<rparr> else msg\<lparr>imageUrl := Some url\<rparr>)
      else msg)"

definition handleSendMessage_image :: "string \<Rightarrow> string option \<Rightarrow> AppState \<Rightarrow> AppState" where
  "handleSendMessage_image botMessageId imageResult cur =
     cur\<lparr>chatState := (chatState cur)
            \<lparr>messages := map (patchImage botMessageId imageResult)
                               (messages (chatState cur))\<rparr>\<rparr>"

definition handleSendMessage ::
  "AppState \<Rightarrow> nat \<Rightarrow> nat \<Rightarrow> js_error + ApiResponse \<Rightarrow> nat \<Rightarrow> nat \<Rightarrow> string option
     \<Rightarrow> AppState \<Rightarrow> AppState" where
  "handleSendMessage seen now1 now2 outcome now3 now4 imageResult cur =
     (case handleSendMessage_submit seen now1 now2 cur of
        (w1, None) \<Rightarrow> w1
      | (w1, Some p) \<Rightarrow>
          (case handleSendMessage_text p (generateTutorResponse outcome) now3 now4 w1 of
             (w2, None) \<Rightarrow> w2
           | (w2, Some botMessageId) \<Rightarrow> handleSendMessage_image botMessageId imageResult w2))"

subsection \<open>getSuggestions\<close>

text \<open>
  \<open>messages[messages.length - 1]\<close> is \<open>undefined\<close> for an empty list, the first
  case of the inner test.
\<close>

definition suggestions :: "string list" where
  "suggestions =
     [''Can you explain this further?'', ''Give me another example.'', ''Explain this in Urdu.'']"

definition getSuggestions :: "ChatState \<Rightarrow> string list" where
  "getSuggestions cs =
     (if isLoading cs then []
      else case messages cs of
        [] \<Rightarrow> []
      | _ # _ \<Rightarrow>
          (let lastMsg = last (messages cs)
           in if role lastMsg \<noteq> Model \<or> isError lastMsg = Some True then []
              else if msg_id lastMsg = ''welcome'' then []
              else suggestions))"

section \<open>The conversation as a transition system\<close>

text \<open>
  Between two awaits of a send, other events reach the component: the user selects a
  subject, goes back, clears the chat, types, submits again, and the answers of earlier
  requests arrive. A \<open>Task\<close> is one call of \<open>handleSendMessage\<close> that passed its guard:
  it waits for the text answer, then for the image answer of the reply with the given
  identifier, then it is finished. \<open>step\<close> applies one event; \<open>Submit\<close> runs the
  handler of the current render. \<open>replyIds\<close> records, for the proofs only, the
  identifiers given to replies so far.
\<close>

datatype Phase = AwaitText | AwaitImage string | Finished

record Task =
  task_pending :: Pending
  task_phase :: Phase

record System =
  app :: AppState
  tasks :: "Task list"
  replyIds :: "string list"

datatype Event =
    SelectSubject Subject nat
  | BackToHome
  | ClearChat bool nat nat
  | TypeInput string
  | ChooseStyle ImageStyle
  | Submit nat nat
  | TextSettled nat "js_error + ApiResponse" nat nat
  | ImageSettled nat "string option"

fun step :: "System \<Rightarrow> Event \<Rightarrow> System" where
  "step s (SelectSubject subj now) =
     s\<lparr>app := (app s)\<lparr>chatState := handleSubjectSelect subj now\<rparr>\<rparr>"
| "step s BackToHome = s\<lparr>app := (app s)\<lparr>chatState := handleBackToHome\<rparr>\<rparr>"
| "step s (ClearChat confirmed now1 now2) =
     s\<lparr>app := (app s)\<lparr>chatState :=
            handleClearChat (chatState (app s)) confirmed now1 now2 (chatState (app s))\<rparr>\<rparr>"
| "step s (TypeInput t) = s\<lparr>app := (app s)\<lparr>inputText := t\<rparr>\<rparr>"
| "step s (ChooseStyle st) = s\<lparr>app := (app s)\<lparr>visualStyle := st\<rparr>\<rparr>"
| "step s (Submit now1 now2) =
     (case handleSendMessage_submit (app s) now1 now2 (app s) of
        (w, None) \<Rightarrow> s\<lparr>app := w\<rparr>
      | (w, Some p) \<Rightarrow>
          s\<lparr>app := w, tasks := tasks s @ [\<lparr>task_pending = p, task_phase = AwaitText\<rparr>]\<rparr>)"
| "step s (TextSettled k outcome now1 now2) =
     (if k < length (tasks s) \<and> task_phase (tasks s ! k) = AwaitText then
        (case handleSendMessage_text (task_pending (tasks s ! k))
                (generateTutorResponse outcome) now1 now2 (app s) of
           (w, None) \<Rightarrow>
             s\<lparr>app := w, tasks := (tasks s)[k := (tasks s ! k)\<lparr>task_phase := Finished\<rparr>]\<rparr>
         | (w, Some botMessageId) \<Rightarrow>
             s\<lparr>app := w,
               tasks := (tasks s)[k := (tasks s ! k)\<lparr>task_phase := AwaitImage botMessageId\<rparr>],
               replyIds := replyIds s @ [botMessageId]\<rparr>)
      else s)"
| "step s (ImageSettled k imageResult) =
     (if k < length (tasks s) then
        (case task_phase (tasks s ! k) of
           AwaitImage botMessageId \<Rightarrow>
             s\<lparr>app := handleSendMessage_image botMessageId imageResult (app s),
               tasks := (tasks s)[k := (tasks s ! k)\<lparr>task_phase := Finished\<rparr>]\<rparr>
         | _ \<Rightarrow> s)
      else s)"

definition initial :: System where
  "initial =
     \<lparr>app = \<lparr>chatState = \<lparr>messages = [], isLoading = False, selectedSubject = None\<rparr>,
             inputText = [], visualStyle = Scientific, calls = []\<rparr>,
      tasks = [], replyIds = []\<rparr>"

definition run :: "Event list \<Rightarrow> System" where
  "run evs = foldl step initial evs"

text \<open>
  The identifiers of the replies whose image step has not resolved yet, and the two
  properties of a state that the specification's invariant speaks of: no message has both
  image fields, and a reply whose image step is unresolved has neither.
\<close>

definition awaiting_image :: "Task list \<Rightarrow> string list" where
  "awaiting_image ts =
     concat (map (\<lambda>t. case task_phase t of AwaitImage b \<Rightarrow> [b] | _ \<Rightarrow> []) ts)"

definition image_fields_exclusive :: "System \<Rightarrow> bool" where
  "image_fields_exclusive s =
     list_all (\<lambda>m. imageUrl m = None \<or> imageError m = None) (messages (chatState (app s)))"

definition unresolved_unmarked :: "System \<Rightarrow> bool" where
  "unresolved_unmarked s =
     list_all (\<lambda>m. msg_id m \<in> set (awaiting_image (tasks s))
                    \<longrightarrow> imageUrl m = None \<and> imageError m = None)
              (messages (chatState (app s)))"

text \<open>
  The invariant used in the proof: besides the two properties, the unresolved identifiers
  are pairwise distinct and recorded, and only messages with a recorded reply identifier
  carry an image field.
\<close>

definition plain :: "Message \<Rightarrow> bool" where
  "plain m = (imageUrl m = None \<and> imageError m = None)"

definition merge_inv :: "System \<Rightarrow> bool" where
  "merge_inv s =
     ((\<forall>m \<in> set (messages (chatState (app s))). imageUrl m = None \<or> imageError m = None)
      \<and> (\<forall>m \<in> set (messages (chatState (app s))).
            msg_id m \<in> set (awaiting_image (tasks s)) \<longrightarrow> plain m)
      \<and> distinct (awaiting_image (tasks s))
      \<and> set (awaiting_image (tasks s)) \<subseteq> set (replyIds s)
      \<and> (\<forall>m \<in> set (messages (chatState (app s))). \<not> plain m \<longrightarrow> msg_id m \<in> set (replyIds s)))"

section \<open>Audio playback controller (components/MessageBubble: handlePlayAudio)\<close>

text \<open>
  The state of one message bubble: the React state \<open>audioState\<close> and the three refs. The
  audio context is represented by its state; a source node by the number of sources
  started before it. The remaining fields record what the handler did: how many audio
  contexts it constructed, how many times it asked \<open>generateSpeechFromText\<close>, which
  sources it started and stopped, how many alerts it raised and the values it passed to
  \<open>setAudioState\<close>, in order.
\<close>

datatype AudioState = Idle | Loading | Playing

datatype ContextState = Suspended | Running

record Bubble =
  audioState :: AudioState
  audioContextRef :: "ContextState option"
  sourceNodeRef :: "nat option"
  audioBufferRef :: "AudioBuffer option"
  contextsConstructed :: nat
  speechRequests :: nat
  sourcesStarted :: "nat list"
  sourcesStopped :: "nat list"
  alerts :: nat
  stateUpdates :: "AudioState list"

datatype Continuation = AwaitResume | AwaitSpeech | Returned

text \<open>
  \<open>startSource\<close> is the block that creates the buffer source, starts it, stores it in
  \<open>sourceNodeRef\<close> and sets the state to playing; \<open>catchPlaybackError\<close> is the
  \<open>catch\<close> block; \<open>onended\<close> is the callback given to every source.
\<close>

definition setAudioState :: "AudioState \<Rightarrow> Bubble \<Rightarrow> Bubble" where
  "setAudioState v b = b\<lparr>audioState := v, stateUpdates := stateUpdates b @ [v]\<rparr>"

definition startSource :: "AudioBuffer \<Rightarrow> Bubble \<Rightarrow> Bubble" where
  "startSource buffer b =
     (let source = length (sourcesStarted b)
      in setAudioState Playing
           (b\<lparr>sourcesStarted := sourcesStarted b @ [source], sourceNodeRef := Some source\<rparr>))"

definition catchPlaybackError :: "Bubble \<Rightarrow> Bubble" where
  "catchPlaybackError b = (setAudioState Idle b)\<lparr>alerts := alerts b + 1\<rparr>"

definition onended :: "Bubble \<Rightarrow> Bubble" where
  "onended b = (setAudioState Idle b)\<lparr>sourceNodeRef := None\<rparr>"

text \<open>
  \<open>handlePlayAudio\<close> reads \<open>audioState\<close> from the render that created it (\<open>seen\<close>).
  It is modelled up to its first await: \<open>fresh\<close> is the state in which the browser
  creates a new audio context. A suspended context makes the handler await
  \<open>ctx.resume()\<close>, before the state is set to loading; \<open>handlePlayAudio_resumed\<close>
  continues from there. \<open>handlePlayAudio_loading\<close> runs from \<open>setAudioState('loading')\<close>
  to the request for speech, or to the start of the cached buffer;
  \<open>handlePlayAudio_speech\<close> runs from the answer of \<open>generateSpeechFromText\<close> to the
  end.
\<close>

definition handlePlayAudio_loading :: "Bubble \<Rightarrow> Bubble \<times> Continuation" where
  "handlePlayAudio_loading b0 =
     (let b = setAudioState Loading b0
      in case audioBufferRef b of
           None \<Rightarrow> (b\<lparr>speechRequests := speechRequests b + 1\<rparr>, AwaitSpeech)
         | Some buffer \<Rightarrow> (startSource buffer b, Returned))"

definition handlePlayAudio_speech :: "string option \<Rightarrow> Bubble \<Rightarrow> Bubble" where
  "handlePlayAudio_speech base64Audio b =
     (case base64Audio of
        None \<Rightarrow> catchPlaybackError b
      | Some data \<Rightarrow>
          if data = [] then catchPlaybackError b
          else case decodePCM data of
                 Inl e \<Rightarrow> catchPlaybackError b
               | Inr buffer \<Rightarrow> startSource buffer (b\<lparr>audioBufferRef := Some buffer\<rparr>))"

definition handlePlayAudio :: "AudioState \<Rightarrow> ContextState \<Rightarrow> Bubble \<Rightarrow> Bubble \<times> Continuation" where
  "handlePlayAudio seen fresh b0 =
     (if seen = Playing then
        (setAudioState Idle
           (case sourceNodeRef b0 of
              None \<Rightarrow> b0
            | Some source \<Rightarrow> b0\<lparr>sourcesStopped := sourcesStopped b0 @ [source]\<rparr>),
         Returned)
      else
        (let b = (case audioContextRef b0 of
                    None \<Rightarrow> b0\<lparr>audioContextRef := Some fresh,
                                contextsConstructed := contextsConstructed b0 + 1\<rparr>
                  | Some ctx \<Rightarrow> b0)
         in if audioContextRef b = Some Suspended then (b, AwaitResume)
            else handlePlayAudio_loading b))"

definition handlePlayAudio_resumed :: "Bubble \<Rightarrow> Bubble \<times> Continuation" where
  "handlePlayAudio_resumed b =
     handlePlayAudio_loading
       (b\<lparr>audioContextRef := map_option (\<lambda>ctx. Running) (audioContextRef b)\<rparr>)"

text \<open>
  The bubble with the handlers that have been called. \<open>Toggle\<close> is a press of the play
  button: the button is disabled while the rendered state is loading, otherwise it calls
  the handler of the current render. The other events are the settling of a
  \<open>ctx.resume()\<close>, the answer to a speech request, and the end of a source.
\<close>

record Player =
  bubble :: Bubble
  handlers :: "Continuation list"

datatype PlayEvent =
    Toggle ContextState
  | ResumeSettled nat
  | SpeechSettled nat "string option"
  | SourceEnded nat

fun play_step :: "Player \<Rightarrow> PlayEvent \<Rightarrow> Player" where
  "play_step s (Toggle fresh) =
     (if audioState (bubble s) = Loading then s
      else case handlePlayAudio (audioState (bubble s)) fresh (bubble s) of
             (b, c) \<Rightarrow> s\<lparr>bubble := b, handlers := handlers s @ [c]\<rparr>)"
| "play_step s (ResumeSettled k) =
     (if k < length (handlers s) \<and> handlers s ! k = AwaitResume then
        (case handlePlayAudio_resumed (bubble s) of
           (b, c) \<Rightarrow> s\<lparr>bubble := b, handlers := (handlers s)[k := c]\<rparr>)
      else s)"
| "play_step s (SpeechSettled k base64Audio) =
     (if k < length (handlers s) \<and> handlers s ! k = AwaitSpeech then
        s\<lparr>bubble := handlePlayAudio_speech base64Audio (bubble s),
          handlers := (handlers s)[k := Returned]\<rparr>
      else s)"
| "play_step s (SourceEnded source) =
     (if source \<in> set (sourcesStarted (bubble s)) then s\<lparr>bubble := onended (bubble s)\<rparr> else s)"

definition mounted :: Player where
  "mounted =
     \<lparr>bubble = \<lparr>audioState = Idle, audioContextRef = None, sourceNodeRef = None,
                audioBufferRef = None, contextsConstructed = 0, speechRequests = 0,
                sourcesStarted = [], sourcesStopped = [], alerts = 0, stateUpdates = []\<rparr>,
      handlers = []\<rparr>"

definition play_run :: "PlayEvent list \<Rightarrow> Player" where
  "play_run evs = foldl play_step mounted evs"

section \<open>Concrete states and runs used to instantiate the theorems\<close>

definition physics_chat :: AppState where
  "physics_chat = \<lparr>chatState = handleSubjectSelect PHYSICS 1000, inputText = [CHR 0x20, CHR 0x09],
                    visualStyle = Scientific, calls = []\<rparr>"

definition because :: ApiResponse where
  "because = \<lparr>response_text = Some ''Because.'', candidates = None\<rparr>"

definition trace_reply :: "Event list" where
  "trace_reply =
     [SelectSubject PHYSICS 1, TypeInput ''Why?'', Submit 2 2, TextSettled 0 (Inr because) 3 3]"

definition state_reply :: System where
  "state_reply =
     \<lparr>app = \<lparr>chatState =
               \<lparr>messages =
                  [\<lparr>msg_id = ''welcome'', role = Model, msg_text = greeting ''Physics'',
                    timestamp = 1, sources = None, imageUrl = None, imageError = None,
                    isError = None\<rparr>,
                   \<lparr>msg_id = ''2'', role = User, msg_text = ''Why?'', timestamp = 2,
                    sources = None, imageUrl = None, imageError = None, isError = None\<rparr>,
                   \<lparr>msg_id = ''4'', role = Model, msg_text = ''Because.'', timestamp = 3,
                    sources = Some [], imageUrl = None, imageError = None, isError = None\<rparr>],
                isLoading = False, selectedSubject = Some PHYSICS\<rparr>,
             inputText = [], visualStyle = Scientific,
             calls = [TextCall ''Why?'' [(Model, greeting ''Physics'')] PHYSICS,
                      ImageCall ''Why?'' PHYSICS Scientific]\<rparr>,
      tasks = [\<lparr>task_pending = \<lparr>pending_text = ''Why?'', pending_subject = PHYSICS,
                                  pending_style = Scientific\<rparr>,
                task_phase = AwaitImage ''4''\<rparr>],
      replyIds = [''4'']\<rparr>"

definition picture :: string where
  "picture = ''data:image/png;base64,AA==''"

definition trace_collision :: "Event list" where
  "trace_collision =
     trace_reply @ [TypeInput ''How?'', Submit 3 3, TextSettled 1 (Inr because) 3 3,
                    ImageSettled 0 (Some picture), ImageSettled 1 None]"

definition three_samples :: AudioBuffer where
  "three_samples = \<lparr>numberOfChannels = 1, frames = 3, sampleRate = 24000,
                     channelData = [[- (1 / 16384), - 1, 32767 / 32768]]\<rparr>"

definition double_toggle :: "PlayEvent list" where
  "double_toggle =
     [Toggle Suspended, Toggle Suspended, ResumeSettled 0, ResumeSettled 1,
      SpeechSettled 0 (Some ''/v8AgP9/''), SpeechSettled 1 (Some ''/v8AgP9/'')]"

definition trace_second_reply :: "Event list" where
  "trace_second_reply =
     trace_reply @ [TypeInput ''How?'', Submit 3 3, TextSettled 1 (Inr because) 3 3,
                    ImageSettled 0 (Some picture)]"

declare sextets.simps [simp del] octets.simps [simp del] strip_padding.simps [simp del]

section \<open>Properties of the PCM decoder\<close>

lemma le16_join:
  "push_bit 8 (ucast (ucast (drop_bit 8 s) :: 8 word)) OR ucast (ucast s :: 8 word) = (s :: 16 word)"
  by (rule bit_word_eqI) (auto simp add: bit_simps)

lemma int16_elements_le_bytes: "int16_elements (int16_le_bytes samples) = samples"
  by (induction samples) (simp_all add: int16_le_bytes_def le16_join)

lemma length_int16_le_bytes: "length (int16_le_bytes samples) = 2 * length samples"
  by (induction samples) (simp_all add: int16_le_bytes_def)

lemma sample_range:
  "- 1 \<le> (of_int (sint (s :: 16 word)) / 32768 :: rat) \<and> (of_int (sint s) / 32768 :: rat) < 1"
proof -
  have "- 32768 \<le> sint s" using sint_ge [of s] by simp
  then have "(of_int (- 32768) :: rat) \<le> of_int (sint s)" by (simp only: of_int_le_iff)
  then have lo: "(- 32768 :: rat) \<le> of_int (sint s)" by simp
  have "sint s < 32768" using sint_lt [of s] by simp
  then have "(of_int (sint s) :: rat) < of_int 32768" by (simp only: of_int_less_iff)
  then have hi: "(of_int (sint s) :: rat) < 32768" by simp
  from lo hi show ?thesis by (simp add: field_simps)
qed

lemma sample_float32_exact: "float32_exact (of_int (sint (s :: 16 word)) / 32768)"
proof -
  have "- 32768 \<le> sint s" using sint_ge [of s] by simp
  moreover have "sint s < 32768" using sint_lt [of s] by simp
  ultimately have "\<bar>sint s\<bar> < 2 ^ 24" by simp
  moreover have "(of_int (sint s) / 32768 :: rat) = of_int (sint s) / 2 ^ 15" by simp
  ultimately show ?thesis
    unfolding float32_exact_def by (intro exI [of _ "sint s"] exI [of _ 15]) simp
qed

lemma sextets_QUJD: "sextets ''QUJD'' = Some [16, 20, 9, 3]"
  by (simp add: base64_alphabet_def sextets.simps)

lemma atob_QUJD: "atob ''QUJD'' = Inr [65, 66, 67]"
  by (simp add: atob_def is_ascii_whitespace_def sextets_QUJD strip_padding.simps octets.simps)

lemma sextets_QUI: "sextets ''QUI'' = Some [16, 20, 8]"
  by (simp add: base64_alphabet_def sextets.simps)

lemma atob_QUI: "atob ''QUI='' = Inr [65, 66]"
  by (simp add: atob_def is_ascii_whitespace_def sextets_QUI strip_padding.simps octets.simps)

lemma sextets_v8A: "sextets ''/v8A'' = Some [63, 47, 60, 0]"
  by (simp add: base64_alphabet_def sextets.simps)

lemma atob_v8A: "atob ''/v8A'' = Inr [254, 255, 0]"
  by (simp add: atob_def is_ascii_whitespace_def sextets_v8A strip_padding.simps octets.simps)

lemma sextets_v8AgP9: "sextets ''/v8AgP9/'' = Some [63, 47, 60, 0, 32, 15, 61, 63]"
  by (simp add: base64_alphabet_def sextets.simps)

lemma atob_v8AgP9: "atob ''/v8AgP9/'' = Inr [254, 255, 0, 128, 255, 127]"
  by (simp add: atob_def is_ascii_whitespace_def sextets_v8AgP9 strip_padding.simps octets.simps)

lemma atob_blank: "atob '' '' = Inr []"
  by (simp add: atob_def is_ascii_whitespace_def strip_padding.simps sextets.simps octets.simps)

text \<open>
  C1 (as the specification states it): a base64 input that decodes to an odd number of
  bytes is decoded successfully, the trailing byte being dropped. The code does not do
  this. The three bytes \<open>0x41 0x42 0x43\<close> (\<open>QUJD\<close>) make the \<open>Int16Array\<close> constructor
  throw, while their even-length prefix (\<open>QUI=\<close>) decodes to one sample.
\<close>

theorem decodePCM_odd_counterexample:
  "base64ToBytes ''QUJD'' = Inr [0x41, 0x42, 0x43]
   \<and> decodePCM ''QUJD'' = Inl RangeError
   \<and> decodePCM ''QUI='' = Inr \<lparr>numberOfChannels = 1, frames = 1, sampleRate = 24000,
                                 channelData = [[16961 / 32768]]\<rparr>"
  by (simp add: decodePCM_def base64ToBytes_def atob_QUJD atob_QUI Int16Array_def
      createBuffer_def)

text \<open>
  C1 (amended): for every base64 input that decodes to an odd number of bytes, the PCM
  decoder returns no buffer: it raises the \<open>RangeError\<close> of the \<open>Int16Array\<close>
  constructor, which the caller has to catch.
\<close>

theorem decodePCM_odd_length_raises:
  assumes "base64ToBytes base64Data = Inr bytes" and "odd (length bytes)"
  shows "decodePCM base64Data = Inl RangeError"
  using assms by (simp add: decodePCM_def Int16Array_def odd_iff_mod_2_eq_one)

theorem decodePCM_odd_length_raises_witness:
  "base64ToBytes ''/v8A'' = Inr [0xFE, 0xFF, 0x00] \<and> odd (length [0xFE, 0xFF, 0x00 :: 8 word])
   \<and> decodePCM ''/v8A'' = Inl RangeError"
proof -
  have b: "base64ToBytes ''/v8A'' = Inr [0xFE, 0xFF, 0x00]"
    by (simp add: base64ToBytes_def atob_v8A)
  have o: "odd (length [0xFE, 0xFF, 0x00 :: 8 word])" by simp
  from decodePCM_odd_length_raises [OF b o] b o show ?thesis by simp
qed

text \<open>
  C2 (as the specification states it): every base64 input that encodes \<open>N\<close> samples
  decodes to \<open>N\<close> frames. For \<open>N = 0\<close> the code does not: a blank input decodes to no
  bytes, and \<open>createBuffer\<close> refuses a buffer of zero frames.
\<close>

theorem decodePCM_no_samples_counterexample:
  "base64ToBytes '' '' = Inr (int16_le_bytes []) \<and> decodePCM '' '' = Inl NotSupportedError"
  by (simp add: decodePCM_def base64ToBytes_def atob_blank Int16Array_def createBuffer_def
      int16_le_bytes_def)

text \<open>
  C2 (amended): for every base64 input that encodes \<open>N \<ge> 1\<close> little-endian signed 16-bit
  samples, the PCM decoder produces one channel of exactly \<open>N\<close> frames at 24000 Hz, every
  output sample equals the corresponding int16 value divided by 32768 (also for positive
  values), and all outputs lie in \<open>[-1, 1)\<close>.
\<close>

theorem decodePCM_samples:
  assumes "base64ToBytes base64Data = Inr (int16_le_bytes samples)" and "samples \<noteq> []"
  shows "decodePCM base64Data =
           Inr \<lparr>numberOfChannels = 1, frames = length samples, sampleRate = 24000,
                channelData = [map (\<lambda>s. of_int (sint s) / 32768) samples]\<rparr>
         \<and> list_all (\<lambda>s. - 1 \<le> (of_int (sint s) / 32768 :: rat)
                           \<and> (of_int (sint s) / 32768 :: rat) < 1) samples"
proof -
  have "map (\<lambda>i. (of_int (sint (samples ! i)) / 32768 :: rat)) [0..<length samples]
        = map (\<lambda>s. of_int (sint s) / 32768) samples"
    by (rule nth_equalityI) simp_all
  with assms have "decodePCM base64Data =
           Inr \<lparr>numberOfChannels = 1, frames = length samples, sampleRate = 24000,
                channelData = [map (\<lambda>s. of_int (sint s) / 32768) samples]\<rparr>"
    by (simp add: decodePCM_def Int16Array_def createBuffer_def
        int16_elements_le_bytes length_int16_le_bytes)
  moreover have "list_all (\<lambda>s. - 1 \<le> (of_int (sint s) / 32768 :: rat)
                           \<and> (of_int (sint s) / 32768 :: rat) < 1) samples"
    unfolding list_all_iff using sample_range by blast
  ultimately show ?thesis by blast
qed

theorem decodePCM_samples_witness:
  "base64ToBytes ''/v8AgP9/'' = Inr (int16_le_bytes [0xFFFE, 0x8000, 0x7FFF])
   \<and> [0xFFFE, 0x8000, 0x7FFF :: 16 word] \<noteq> []
   \<and> decodePCM ''/v8AgP9/'' =
       Inr \<lparr>numberOfChannels = 1, frames = 3, sampleRate = 24000,
            channelData = [[- (1 / 16384), - 1, 32767 / 32768]]\<rparr>"
proof -
  have b: "base64ToBytes ''/v8AgP9/'' = Inr (int16_le_bytes [0xFFFE, 0x8000, 0x7FFF])"
    by (simp add: base64ToBytes_def atob_v8AgP9 int16_le_bytes_def)
  have n: "[0xFFFE, 0x8000, 0x7FFF :: 16 word] \<noteq> []" by simp
  from decodePCM_samples [OF b n] b show ?thesis by simp
qed

section \<open>Properties of the subject enumeration\<close>

text \<open>
  C8: the specification lists nine subjects, Pakistan Studies among them, and says every
  subject offered for selection is drawn from the enumeration. The enumeration of
  \<open>types.ts\<close> has eight members and none has the value Pakistan Studies; the eighth
  entry of \<open>SUBJECTS_CONFIG\<close> reads a member that does not exist.
\<close>

theorem subject_enum_lacks_pakistan_studies:
  "(UNIV :: Subject set) = set (map snd Subject_members)
   \<and> map (subject_value \<circ> snd) Subject_members =
       [''English'', ''Urdu'', ''Mathematics'', ''Physics'', ''Chemistry'', ''Biology'',
        ''Computer Science'', ''General Help'']
   \<and> ''Pakistan Studies'' \<notin> range subject_value
   \<and> Subject_member ''PAK_STUDIES'' = None
   \<and> map config_id SUBJECTS_CONFIG =
       [Some ENGLISH, Some URDU, Some MATHS, Some PHYSICS, Some CHEMISTRY, Some BIOLOGY,
        Some COMPUTER, None]"
proof -
  have "x \<in> set (map snd Subject_members)" for x
    by (cases x) (simp_all add: Subject_members_def)
  then have a: "(UNIV :: Subject set) = set (map snd Subject_members)" by blast
  have b: "map (subject_value \<circ> snd) Subject_members =
       [''English'', ''Urdu'', ''Mathematics'', ''Physics'', ''Chemistry'', ''Biology'',
        ''Computer Science'', ''General Help'']"
    by (simp add: Subject_members_def)
  have c: "''Pakistan Studies'' \<notin> range subject_value"
  proof
    assume "''Pakistan Studies'' \<in> range subject_value"
    then obtain s where "subject_value s = ''Pakistan Studies''" by auto
    then show False by (cases s) simp_all
  qed
  have d: "Subject_member ''PAK_STUDIES'' = None"
    by (simp add: Subject_member_def Subject_members_def)
  have e: "map config_id SUBJECTS_CONFIG =
       [Some ENGLISH, Some URDU, Some MATHS, Some PHYSICS, Some CHEMISTRY, Some BIOLOGY,
        Some COMPUTER, None]"
    by (simp add: SUBJECTS_CONFIG_def Subject_member_def Subject_members_def)
  from a b c d e show ?thesis by blast
qed


section \<open>Properties of the conversation orchestrator\<close>

lemma digit_char_in: "d < 10 \<Longrightarrow> digit_char d \<in> set ''0123456789''"
  unfolding digit_char_def by (rule nth_mem) simp

lemma last_string_of_nat: "last (string_of_nat n) = digit_char (n mod 10)"
  by (subst string_of_nat.simps) simp

lemma string_of_nat_not_welcome: "string_of_nat n \<noteq> ''welcome''"
proof
  assume "string_of_nat n = ''welcome''"
  then have "last (string_of_nat n) = CHR ''e''" by simp
  then have "digit_char (n mod 10) = CHR ''e''" by (simp add: last_string_of_nat)
  moreover have "digit_char (n mod 10) \<in> set ''0123456789''" by (rule digit_char_in) simp
  ultimately show False by simp
qed

lemma trim_empty_iff: "trim s = [] \<longleftrightarrow> list_all is_js_whitespace s"
proof
  assume "list_all is_js_whitespace s"
  then have "dropWhile is_js_whitespace s = []"
    unfolding list_all_iff dropWhile_eq_Nil_conv .
  then show "trim s = []" unfolding trim_def by (simp only: rev.simps dropWhile.simps)
next
  assume t: "trim s = []"
  show "list_all is_js_whitespace s"
  proof (cases "dropWhile is_js_whitespace s = []")
    case True
    then show ?thesis unfolding list_all_iff dropWhile_eq_Nil_conv .
  next
    case False
    then have h: "\<not> is_js_whitespace (hd (dropWhile is_js_whitespace s))"
      by (rule hd_dropWhile)
    from t have "dropWhile is_js_whitespace (rev (dropWhile is_js_whitespace s)) = []"
      by (simp add: trim_def)
    then have "\<forall>x \<in> set (rev (dropWhile is_js_whitespace s)). is_js_whitespace x"
      unfolding dropWhile_eq_Nil_conv .
    then have "\<forall>x \<in> set (dropWhile is_js_whitespace s). is_js_whitespace x"
      by (simp only: set_rev)
    with False h show ?thesis by (metis hd_in_set)
  qed
qed


text \<open>
  C5: a send whose prompt is empty or consists of white space only, or that is made while
  \<open>isLoading\<close> holds, or while no subject is selected, changes nothing: the message list,
  \<open>isLoading\<close>, the selected subject and the log of collaborator calls are those of the
  state before, and no request is pending.
\<close>

theorem send_guard_noop:
  assumes "list_all is_js_whitespace (inputText seen) \<or> isLoading (chatState seen)
           \<or> selectedSubject (chatState seen) = None"
  shows "handleSendMessage_submit seen now1 now2 cur = (cur, None)
         \<and> handleSendMessage seen now1 now2 outcome now3 now4 imageResult cur = cur"
proof -
  from assms have "handleSendMessage_submit seen now1 now2 cur = (cur, None)"
    by (auto simp add: handleSendMessage_submit_def trim_empty_iff)
  then show ?thesis by (simp add: handleSendMessage_def)
qed

theorem send_guard_noop_witness:
  "(list_all is_js_whitespace (inputText physics_chat) \<or> isLoading (chatState physics_chat)
     \<or> selectedSubject (chatState physics_chat) = None)
   \<and> \<not> isLoading (chatState physics_chat)
   \<and> selectedSubject (chatState physics_chat) = Some PHYSICS
   \<and> handleSendMessage_submit physics_chat 2000 2000 physics_chat = (physics_chat, None)
   \<and> handleSendMessage physics_chat 2000 2000 (Inl (Error ''offline'')) 3000 3000 None physics_chat
       = physics_chat"
proof -
  have h: "list_all is_js_whitespace (inputText physics_chat) \<or> isLoading (chatState physics_chat)
     \<or> selectedSubject (chatState physics_chat) = None"
    by (simp add: physics_chat_def is_js_whitespace_def)
  from send_guard_noop [OF h] h show ?thesis
    by (simp add: physics_chat_def handleSubjectSelect_def)
qed


text \<open>
  C4: when the text collaborator fails, the handler appends exactly one message, a model
  message with \<open>isError = true\<close> and the fixed apology text, sets \<open>isLoading\<close> to false,
  makes no call to the image collaborator and has nothing left to do for that send.
\<close>

theorem text_failure_appends_error:
  "(let (w, next) = handleSendMessage_text p (generateTutorResponse (Inl e)) now1 now2 cur;
        errorMessage = last (messages (chatState w))
    in messages (chatState w) = messages (chatState cur) @ [errorMessage]
       \<and> role errorMessage = Model
       \<and> isError errorMessage = Some True
       \<and> msg_text errorMessage = network_error_text
       \<and> isLoading (chatState w) = False
       \<and> calls w = calls cur
       \<and> next = None)"
  by (simp add: handleSendMessage_text_def generateTutorResponse_def)






lemma getSuggestions_iff:
  "getSuggestions cs =
     (if \<not> isLoading cs \<and> messages cs \<noteq> [] \<and> role (last (messages cs)) = Model
         \<and> isError (last (messages cs)) \<noteq> Some True \<and> msg_id (last (messages cs)) \<noteq> ''welcome''
      then suggestions else [])"
  by (cases "messages cs") (simp_all add: getSuggestions_def Let_def del: last.simps)


text \<open>
  C9: the specification says that no suggestions are available when the last message is a
  greeting, also the greeting produced by clearing the chat. The code recognises a
  greeting by the identifier \<open>welcome\<close>, which only \<open>handleSubjectSelect\<close> assigns; the
  greeting of \<open>handleClearChat\<close> has a numeral as identifier. So after a clear the three
  suggestions are offered, for the very text for which they are withheld after a subject
  selection.
\<close>

theorem suggestions_after_clear:
  "getSuggestions (handleClearChat (handleSubjectSelect subject now0) True now1 now2
                     (handleSubjectSelect subject now0))
   = [''Can you explain this further?'', ''Give me another example.'', ''Explain this in Urdu.'']
   \<and> msg_text (last (messages (handleClearChat (handleSubjectSelect subject now0) True now1 now2
                     (handleSubjectSelect subject now0))))
     = msg_text (last (messages (handleSubjectSelect subject now0)))
   \<and> getSuggestions (handleSubjectSelect subject now0) = []"
  by (simp add: getSuggestions_def handleClearChat_def handleSubjectSelect_def
      string_of_nat_not_welcome suggestions_def template_subject_def)


theorem suggestions_after_clear_witness:
  "getSuggestions (handleClearChat (handleSubjectSelect PHYSICS 1000) True 2000 2000
                     (handleSubjectSelect PHYSICS 1000))
   = [''Can you explain this further?'', ''Give me another example.'', ''Explain this in Urdu.'']
   \<and> getSuggestions (handleSubjectSelect PHYSICS 1000) = []"
  using suggestions_after_clear [of PHYSICS 1000 2000 2000] by blast

section \<open>The image merge and the invariant of the message list\<close>

lemma awaiting_image_append [simp]:
  "awaiting_image (xs @ ys) = awaiting_image xs @ awaiting_image ys"
  by (simp add: awaiting_image_def)

lemma awaiting_image_single:
  "awaiting_image [t] = (case task_phase t of AwaitImage b \<Rightarrow> [b] | _ \<Rightarrow> [])"
  by (simp add: awaiting_image_def)

lemma awaiting_image_update:
  assumes "k < length ts"
  shows "awaiting_image (ts[k := t]) =
           awaiting_image (take k ts) @ awaiting_image [t] @ awaiting_image (drop (Suc k) ts)"
    and "awaiting_image ts =
           awaiting_image (take k ts) @ awaiting_image [ts ! k] @ awaiting_image (drop (Suc k) ts)"
proof -
  from assms have "ts[k := t] = take k ts @ [t] @ drop (Suc k) ts"
    by (simp add: upd_conv_take_nth_drop)
  then show "awaiting_image (ts[k := t]) =
           awaiting_image (take k ts) @ awaiting_image [t] @ awaiting_image (drop (Suc k) ts)"
    by (simp only: awaiting_image_append)
  from assms have "ts = take k ts @ [ts ! k] @ drop (Suc k) ts"
    by (simp add: id_take_nth_drop)
  then have "awaiting_image ts = awaiting_image (take k ts @ [ts ! k] @ drop (Suc k) ts)"
    by simp
  then show "awaiting_image ts =
           awaiting_image (take k ts) @ awaiting_image [ts ! k] @ awaiting_image (drop (Suc k) ts)"
    by (simp only: awaiting_image_append)
qed

lemma awaiting_text_to_finished:
  assumes "k < length ts" and "task_phase (ts ! k) = AwaitText"
  shows "awaiting_image (ts[k := (ts ! k)\<lparr>task_phase := Finished\<rparr>]) = awaiting_image ts"
  using awaiting_image_update [OF assms(1)] assms(2) by (simp add: awaiting_image_single)

lemma awaiting_text_to_image:
  assumes "k < length ts" and "task_phase (ts ! k) = AwaitText"
  shows "set (awaiting_image (ts[k := (ts ! k)\<lparr>task_phase := AwaitImage b\<rparr>]))
           = insert b (set (awaiting_image ts))"
    and "distinct (awaiting_image ts) \<Longrightarrow> b \<notin> set (awaiting_image ts)
           \<Longrightarrow> distinct (awaiting_image (ts[k := (ts ! k)\<lparr>task_phase := AwaitImage b\<rparr>]))"
proof -
  let ?u = "ts[k := (ts ! k)\<lparr>task_phase := AwaitImage b\<rparr>]"
  have u: "awaiting_image ?u = awaiting_image (take k ts) @ [b] @ awaiting_image (drop (Suc k) ts)"
    using awaiting_image_update(1) [OF assms(1)] by (simp add: awaiting_image_single)
  have o: "awaiting_image ts = awaiting_image (take k ts) @ awaiting_image (drop (Suc k) ts)"
    using awaiting_image_update(2) [OF assms(1)] assms(2) by (simp add: awaiting_image_single)
  show "set (awaiting_image ?u) = insert b (set (awaiting_image ts))"
    unfolding u by (subst o) auto
  show "distinct (awaiting_image ts) \<Longrightarrow> b \<notin> set (awaiting_image ts) \<Longrightarrow> distinct (awaiting_image ?u)"
    unfolding u by (subst (asm) o, subst (asm) o) auto
qed

lemma awaiting_image_to_finished:
  assumes "k < length ts" and "task_phase (ts ! k) = AwaitImage b"
      and "distinct (awaiting_image ts)"
  shows "set (awaiting_image (ts[k := (ts ! k)\<lparr>task_phase := Finished\<rparr>]))
           = set (awaiting_image ts) - {b}"
    and "distinct (awaiting_image (ts[k := (ts ! k)\<lparr>task_phase := Finished\<rparr>]))"
proof -
  let ?u = "ts[k := (ts ! k)\<lparr>task_phase := Finished\<rparr>]"
  have u: "awaiting_image ?u = awaiting_image (take k ts) @ awaiting_image (drop (Suc k) ts)"
    using awaiting_image_update(1) [OF assms(1)] by (simp add: awaiting_image_single)
  have o: "awaiting_image ts = awaiting_image (take k ts) @ [b] @ awaiting_image (drop (Suc k) ts)"
    using awaiting_image_update(2) [OF assms(1)] assms(2) by (simp add: awaiting_image_single)
  from assms(3) have d: "distinct (awaiting_image (take k ts) @ [b] @ awaiting_image (drop (Suc k) ts))"
    by (subst (asm) o)
  show "set (awaiting_image ?u) = set (awaiting_image ts) - {b}"
    unfolding u using d by (subst o) auto
  show "distinct (awaiting_image ?u)"
    unfolding u using d by auto
qed

lemma plain_patchImage_other:
  "msg_id m \<noteq> b \<Longrightarrow> patchImage b r m = m"
  by (simp add: patchImage_def)

lemma msg_id_patchImage [simp]: "msg_id (patchImage b r m) = msg_id m"
  by (simp add: patchImage_def split: option.split)

lemma patchImage_plain_exclusive:
  "plain m \<Longrightarrow> imageUrl (patchImage b r m) = None \<or> imageError (patchImage b r m) = None"
  by (simp add: patchImage_def plain_def split: option.split)

lemma plainD: "plain m \<Longrightarrow> imageUrl m = None \<or> imageError m = None"
  by (simp add: plain_def)

lemma inv_frame:
  assumes "merge_inv s"
      and "set (messages (chatState (app s'))) \<subseteq> set (messages (chatState (app s))) \<union> Collect plain"
      and "awaiting_image (tasks s') = awaiting_image (tasks s)"
      and "replyIds s' = replyIds s"
  shows "merge_inv s'"
proof -
  have sub: "m \<in> set (messages (chatState (app s))) \<or> plain m"
    if "m \<in> set (messages (chatState (app s')))" for m
    using that assms(2) by auto
  from assms(1) have old:
    "\<forall>m\<in>set (messages (chatState (app s))). imageUrl m = None \<or> imageError m = None"
    "\<forall>m\<in>set (messages (chatState (app s))).
        msg_id m \<in> set (awaiting_image (tasks s)) \<longrightarrow> plain m"
    "distinct (awaiting_image (tasks s))"
    "set (awaiting_image (tasks s)) \<subseteq> set (replyIds s)"
    "\<forall>m\<in>set (messages (chatState (app s))). \<not> plain m \<longrightarrow> msg_id m \<in> set (replyIds s)"
    unfolding merge_inv_def by simp_all
  show ?thesis
    unfolding merge_inv_def assms(3,4)
  proof (intro conjI ballI)
    fix m assume "m \<in> set (messages (chatState (app s')))"
    from sub [OF this] old(1) show "imageUrl m = None \<or> imageError m = None"
      by (auto simp add: plain_def)
  next
    fix m assume "m \<in> set (messages (chatState (app s')))"
    from sub [OF this] old(2) show "msg_id m \<in> set (awaiting_image (tasks s)) \<longrightarrow> plain m"
      by auto
  next
    show "distinct (awaiting_image (tasks s))" by (rule old(3))
    show "set (awaiting_image (tasks s)) \<subseteq> set (replyIds s)" by (rule old(4))
  next
    fix m assume "m \<in> set (messages (chatState (app s')))"
    from sub [OF this] old(5) show "\<not> plain m \<longrightarrow> msg_id m \<in> set (replyIds s)"
      by auto
  qed
qed

lemma inv_reply:
  assumes "merge_inv s"
      and "messages (chatState (app s')) = messages (chatState (app s)) @ [m]" and "plain m"
      and "k < length (tasks s)" and "task_phase (tasks s ! k) = AwaitText"
      and "tasks s' = (tasks s)[k := (tasks s ! k)\<lparr>task_phase := AwaitImage b\<rparr>]"
      and "replyIds s' = replyIds s @ [b]"
      and "distinct (replyIds s')"
  shows "merge_inv s'"
proof -
  from assms(7,8) have fresh: "b \<notin> set (replyIds s)" by simp
  with assms(1) have nb: "b \<notin> set (awaiting_image (tasks s))" unfolding merge_inv_def by blast
  have aw: "set (awaiting_image (tasks s')) = insert b (set (awaiting_image (tasks s)))"
    unfolding assms(6) by (rule awaiting_text_to_image(1) [OF assms(4,5)])
  have di: "distinct (awaiting_image (tasks s'))"
    unfolding assms(6) using assms(1) nb
    by (intro awaiting_text_to_image(2) [OF assms(4,5)]) (simp_all add: merge_inv_def)
  have old: "\<forall>x \<in> set (messages (chatState (app s))). msg_id x = b \<longrightarrow> plain x"
    using assms(1) fresh unfolding merge_inv_def by blast
  show ?thesis
    unfolding merge_inv_def
  proof (intro conjI)
    show "\<forall>m\<in>set (messages (chatState (app s'))). imageUrl m = None \<or> imageError m = None"
      using assms(1,3) unfolding assms(2) merge_inv_def plain_def by auto
    show "\<forall>m\<in>set (messages (chatState (app s'))).
            msg_id m \<in> set (awaiting_image (tasks s')) \<longrightarrow> plain m"
      using assms(1,3) old unfolding assms(2) aw merge_inv_def by auto
    show "distinct (awaiting_image (tasks s'))" by (rule di)
    show "set (awaiting_image (tasks s')) \<subseteq> set (replyIds s')"
      using assms(1) unfolding aw assms(7) merge_inv_def by auto
    show "\<forall>m\<in>set (messages (chatState (app s'))). \<not> plain m \<longrightarrow> msg_id m \<in> set (replyIds s')"
      using assms(1,3) unfolding assms(2,7) merge_inv_def by auto
  qed
qed

lemma inv_image:
  assumes "merge_inv s"
      and "messages (chatState (app s')) = map (patchImage b r) (messages (chatState (app s)))"
      and "k < length (tasks s)" and "task_phase (tasks s ! k) = AwaitImage b"
      and "tasks s' = (tasks s)[k := (tasks s ! k)\<lparr>task_phase := Finished\<rparr>]"
      and "replyIds s' = replyIds s"
  shows "merge_inv s'"
proof -
  from assms(1) have d: "distinct (awaiting_image (tasks s))" by (simp add: merge_inv_def)
  have aw: "set (awaiting_image (tasks s')) = set (awaiting_image (tasks s)) - {b}"
    unfolding assms(5) by (rule awaiting_image_to_finished(1) [OF assms(3,4) d])
  have di: "distinct (awaiting_image (tasks s'))"
    unfolding assms(5) by (rule awaiting_image_to_finished(2) [OF assms(3,4) d])
  have bin: "b \<in> set (awaiting_image (tasks s))"
    using awaiting_image_update(2) [OF assms(3)] assms(4) by (simp add: awaiting_image_single)
  with assms(1) have br: "b \<in> set (replyIds s)" unfolding merge_inv_def by blast
  have each: "(imageUrl (patchImage b r m) = None \<or> imageError (patchImage b r m) = None)
              \<and> (msg_id m \<in> set (awaiting_image (tasks s)) - {b} \<longrightarrow> plain (patchImage b r m))
              \<and> (\<not> plain (patchImage b r m) \<longrightarrow> msg_id m \<in> set (replyIds s))"
    if "m \<in> set (messages (chatState (app s)))" for m
  proof (cases "msg_id m = b")
    case True
    with that assms(1) bin have "plain m" unfolding merge_inv_def by blast
    with True br show ?thesis by (simp add: patchImage_plain_exclusive)
  next
    case False
    then have "patchImage b r m = m" by (rule plain_patchImage_other)
    with that assms(1) show ?thesis unfolding merge_inv_def by auto
  qed
  show ?thesis
    unfolding merge_inv_def
  proof (intro conjI)
    show "\<forall>m\<in>set (messages (chatState (app s'))). imageUrl m = None \<or> imageError m = None"
      unfolding assms(2) using each by auto
    show "\<forall>m\<in>set (messages (chatState (app s'))).
            msg_id m \<in> set (awaiting_image (tasks s')) \<longrightarrow> plain m"
      unfolding assms(2) aw using each by auto
    show "distinct (awaiting_image (tasks s'))" by (rule di)
    show "set (awaiting_image (tasks s')) \<subseteq> set (replyIds s')"
      using assms(1) unfolding aw assms(6) merge_inv_def by auto
    show "\<forall>m\<in>set (messages (chatState (app s'))). \<not> plain m \<longrightarrow> msg_id m \<in> set (replyIds s')"
      unfolding assms(2,6) using each by auto
  qed
qed

lemma submit_cases:
  "handleSendMessage_submit seen now1 now2 cur = (cur, None)
   \<or> (\<exists>m p. plain m \<and> messages (chatState (fst (handleSendMessage_submit seen now1 now2 cur)))
               = messages (chatState cur) @ [m]
             \<and> snd (handleSendMessage_submit seen now1 now2 cur) = Some p)"
  by (simp add: handleSendMessage_submit_def plain_def Let_def split: option.split)

lemma text_cases:
  "(\<exists>m. plain m \<and> messages (chatState (fst (handleSendMessage_text p outcome now1 now2 cur)))
               = messages (chatState cur) @ [m])"
  by (cases outcome) (simp_all add: handleSendMessage_text_def plain_def Let_def)

lemma inv_step:
  assumes "merge_inv s" and "distinct (replyIds (step s e))"
  shows "merge_inv (step s e)"
proof (cases e)
  case (SelectSubject subj now)
  show ?thesis
    by (rule inv_frame [OF assms(1)])
       (simp_all add: SelectSubject handleSubjectSelect_def plain_def)
next
  case BackToHome
  show ?thesis
    by (rule inv_frame [OF assms(1)]) (simp_all add: BackToHome handleBackToHome_def)
next
  case (ClearChat confirmed now1 now2)
  show ?thesis
    by (rule inv_frame [OF assms(1)])
       (auto simp add: ClearChat handleClearChat_def plain_def)
next
  case (TypeInput t)
  show ?thesis by (rule inv_frame [OF assms(1)]) (simp_all add: TypeInput)
next
  case (ChooseStyle st)
  show ?thesis by (rule inv_frame [OF assms(1)]) (simp_all add: ChooseStyle)
next
  case (Submit now1 now2)
  from submit_cases [of "app s" now1 now2 "app s"] show ?thesis
  proof
    assume "handleSendMessage_submit (app s) now1 now2 (app s) = (app s, None)"
    then show ?thesis
      by (intro inv_frame [OF assms(1)]) (simp_all add: Submit)
  next
    assume "\<exists>m p. plain m \<and> messages (chatState (fst (handleSendMessage_submit (app s) now1 now2 (app s))))
               = messages (chatState (app s)) @ [m]
             \<and> snd (handleSendMessage_submit (app s) now1 now2 (app s)) = Some p"
    then obtain m p where "plain m"
      and "messages (chatState (fst (handleSendMessage_submit (app s) now1 now2 (app s))))
               = messages (chatState (app s)) @ [m]"
      and "snd (handleSendMessage_submit (app s) now1 now2 (app s)) = Some p"
      by blast
    then show ?thesis
      by (intro inv_frame [OF assms(1)])
         (auto simp add: Submit awaiting_image_single split: prod.split)
  qed
next
  case (TextSettled k outcome now1 now2)
  show ?thesis
  proof (cases "k < length (tasks s) \<and> task_phase (tasks s ! k) = AwaitText")
    case False
    then have "step s e = s" by (auto simp add: TextSettled)
    with assms(1) show ?thesis by simp
  next
    case True
    obtain w x where r: "handleSendMessage_text (task_pending (tasks s ! k))
                (generateTutorResponse outcome) now1 now2 (app s) = (w, x)"
      by fastforce
    from text_cases [of "task_pending (tasks s ! k)" "generateTutorResponse outcome" now1 now2 "app s"]
    obtain m where m: "plain m" "messages (chatState w) = messages (chatState (app s)) @ [m]"
      unfolding r by auto
    show ?thesis
    proof (cases x)
      case None
      with True r have st: "step s e = s\<lparr>app := w,
               tasks := (tasks s)[k := (tasks s ! k)\<lparr>task_phase := Finished\<rparr>]\<rparr>"
        by (simp add: TextSettled)
      from True m show ?thesis
        by (intro inv_frame [OF assms(1)]) (auto simp add: st awaiting_text_to_finished)
    next
      case (Some b)
      with True r have st: "step s e = s\<lparr>app := w,
               tasks := (tasks s)[k := (tasks s ! k)\<lparr>task_phase := AwaitImage b\<rparr>],
               replyIds := replyIds s @ [b]\<rparr>"
        by (simp add: TextSettled)
      show ?thesis
        by (rule inv_reply [OF assms(1) _ m(1) conjunct1 [OF True] conjunct2 [OF True], of _ b])
           (use assms(2) m(2) in \<open>simp_all add: st\<close>)
    qed
  qed
next
  case (ImageSettled k imageResult)
  show ?thesis
  proof (cases "k < length (tasks s)")
    case False
    then have "step s e = s" by (simp add: ImageSettled)
    with assms(1) show ?thesis by simp
  next
    case True
    show ?thesis
    proof (cases "task_phase (tasks s ! k)")
      case AwaitText
      with True have "step s e = s" by (simp add: ImageSettled)
      with assms(1) show ?thesis by simp
    next
      case Finished
      with True have "step s e = s" by (simp add: ImageSettled)
      with assms(1) show ?thesis by simp
    next
      case (AwaitImage b)
      with True have st: "step s e = s\<lparr>app := handleSendMessage_image b imageResult (app s),
               tasks := (tasks s)[k := (tasks s ! k)\<lparr>task_phase := Finished\<rparr>]\<rparr>"
        by (simp add: ImageSettled)
      show ?thesis
        by (rule inv_image [OF assms(1) _ True AwaitImage, of _ imageResult])
           (simp_all add: st handleSendMessage_image_def)
    qed
  qed
qed

lemma replyIds_step: "\<exists>more. replyIds (step s e) = replyIds s @ more"
  by (cases e) (auto split: prod.split option.split Phase.split)

lemma inv_initial: "merge_inv initial"
  by (simp add: merge_inv_def initial_def awaiting_image_def)

lemma run_snoc: "run (evs @ [e]) = step (run evs) e"
  by (simp add: run_def)

lemma inv_run: "distinct (replyIds (run evs)) \<Longrightarrow> merge_inv (run evs)"
proof (induction evs rule: rev_induct)
  case Nil
  show ?case by (simp add: run_def inv_initial)
next
  case (snoc e evs)
  from replyIds_step [of "run evs" e] obtain more
    where "replyIds (step (run evs) e) = replyIds (run evs) @ more" by blast
  with snoc.prems have "distinct (replyIds (run evs))" by (simp add: run_snoc)
  then have "merge_inv (run evs)" by (rule snoc.IH)
  then show ?case using snoc.prems unfolding run_snoc by (rule inv_step)
qed

lemma string_of_nat_2: "string_of_nat 2 = ''2''"
  by (simp add: string_of_nat.simps digit_char_def)

lemma string_of_nat_4: "string_of_nat 4 = ''4''"
  by (simp add: string_of_nat.simps digit_char_def)

lemma string_of_nat_5: "string_of_nat 5 = ''5''"
  by (simp add: string_of_nat.simps digit_char_def)

lemma trim_Why: "trim ''Why?'' = ''Why?''"
  by (simp add: trim_def is_js_whitespace_def)

lemma run_trace_reply: "run trace_reply = state_reply"
  by (simp add: run_def trace_reply_def state_reply_def initial_def handleSubjectSelect_def
      handleSendMessage_submit_def handleSendMessage_text_def generateTutorResponse_def
      because_def or_else_def first_groundingChunks_def trim_Why string_of_nat_2
      string_of_nat_4 Let_def)

lemma merge_frame:
  "(let before = messages (chatState cur);
        after = messages (chatState (handleSendMessage_image b r cur))
    in length after = length before
       \<and> map msg_id after = map msg_id before
       \<and> (\<forall>i<length before. msg_id (before ! i) \<noteq> b \<longrightarrow> after ! i = before ! i)
       \<and> (\<forall>i<length before. msg_id (before ! i) = b \<longrightarrow> after ! i = patchImage b r (before ! i))
       \<and> (distinct (map msg_id before) \<longrightarrow>
            (\<forall>i<length before. msg_id (before ! i) = b \<longrightarrow>
               after = before[i := patchImage b r (before ! i)]))
       \<and> (b \<notin> set (map msg_id before) \<longrightarrow> after = before))"
proof -
  let ?before = "messages (chatState cur)"
  let ?after = "map (patchImage b r) ?before"
  have other: "msg_id (?before ! i) \<noteq> b \<Longrightarrow> i < length ?before \<Longrightarrow> ?after ! i = ?before ! i" for i
    by (simp add: plain_patchImage_other)
  have one: "?after = ?before[i := patchImage b r (?before ! i)]"
    if d: "distinct (map msg_id ?before)" and i: "i < length ?before" and b: "msg_id (?before ! i) = b" for i
  proof (rule nth_equalityI)
    show "length ?after = length (?before[i := patchImage b r (?before ! i)])" by simp
  next
    fix j assume "j < length ?after"
    then have j: "j < length ?before" by simp
    show "?after ! j = ?before[i := patchImage b r (?before ! i)] ! j"
    proof (cases "j = i")
      case True
      with i show ?thesis by simp
    next
      case False
      have "msg_id (?before ! j) \<noteq> msg_id (?before ! i)"
        using d i j False by (metis distinct_conv_nth length_map nth_map)
      with b have "msg_id (?before ! j) \<noteq> b" by simp
      with j False show ?thesis by (simp add: plain_patchImage_other)
    qed
  qed
  have none: "?after = ?before" if nb: "b \<notin> set (map msg_id ?before)"
  proof (rule map_idI)
    fix x assume "x \<in> set ?before"
    with nb have "msg_id x \<noteq> b" by auto
    then show "patchImage b r x = x" by (rule plain_patchImage_other)
  qed
  show ?thesis
    unfolding Let_def handleSendMessage_image_def
    using other one none by (simp add: comp_def)
qed

lemma run_trace_clear:
  "run (trace_reply @ [ClearChat True 5 5]) =
     state_reply\<lparr>app := (app state_reply)\<lparr>chatState :=
       \<lparr>messages = [\<lparr>msg_id = ''5'', role = Model, msg_text = greeting ''Physics'',
                      timestamp = 5, sources = None, imageUrl = None, imageError = None,
                      isError = None\<rparr>],
        isLoading = False, selectedSubject = Some PHYSICS\<rparr>\<rparr>\<rparr>"
  by (simp add: run_snoc run_trace_reply state_reply_def handleClearChat_def
      string_of_nat_5 template_subject_def)

text \<open>
  C6 (as the specification states it): the late image merge patches exactly one element.
  It does not when the chat was cleared while the image request was in flight: the reply
  with identifier 4 is no longer in the list, the image step resolves, and the list is left
  as it was.
\<close>

theorem image_merge_after_clear_counterexample:
  "awaiting_image (tasks (run (trace_reply @ [ClearChat True 5 5]))) = [''4'']
   \<and> awaiting_image (tasks (run (trace_reply @ [ClearChat True 5 5, ImageSettled 0 (Some picture)]))) = []
   \<and> map msg_id (messages (chatState (app (run (trace_reply @ [ClearChat True 5 5]))))) = [''5'']
   \<and> messages (chatState (app (run (trace_reply @ [ClearChat True 5 5, ImageSettled 0 (Some picture)]))))
     = messages (chatState (app (run (trace_reply @ [ClearChat True 5 5]))))"
proof -
  have "run (trace_reply @ [ClearChat True 5 5, ImageSettled 0 (Some picture)])
        = step (run (trace_reply @ [ClearChat True 5 5])) (ImageSettled 0 (Some picture))"
    using run_snoc [of "trace_reply @ [ClearChat True 5 5]"] by simp
  then show ?thesis
    by (simp add: run_trace_clear state_reply_def awaiting_image_def
        handleSendMessage_image_def patchImage_def)
qed

text \<open>
  C6 (amended): in every state reached by a run whose reply identifiers are pairwise
  distinct, no message has both \<open>imageUrl\<close> and \<open>imageError\<close>, and a reply has neither
  until its image step resolves. The late image merge keeps the length of the list and the
  order of the identifiers, leaves every message with another identifier unchanged and
  patches the messages with the reply's identifier in place: exactly one element when the
  identifiers in the list are distinct and the reply is still there, none when the reply
  has been removed.
\<close>

theorem image_merge_invariant:
  "(distinct (replyIds (run evs))
      \<longrightarrow> image_fields_exclusive (run evs) \<and> unresolved_unmarked (run evs))
   \<and> (let before = messages (chatState cur);
           after = messages (chatState (handleSendMessage_image b r cur))
       in length after = length before
          \<and> map msg_id after = map msg_id before
          \<and> (\<forall>i<length before. msg_id (before ! i) \<noteq> b \<longrightarrow> after ! i = before ! i)
          \<and> (\<forall>i<length before. msg_id (before ! i) = b \<longrightarrow> after ! i = patchImage b r (before ! i))
          \<and> (distinct (map msg_id before) \<longrightarrow>
               (\<forall>i<length before. msg_id (before ! i) = b \<longrightarrow>
                  after = before[i := patchImage b r (before ! i)]))
          \<and> (b \<notin> set (map msg_id before) \<longrightarrow> after = before))"
proof -
  have "image_fields_exclusive (run evs) \<and> unresolved_unmarked (run evs)"
    if "distinct (replyIds (run evs))"
  proof -
    from that have "merge_inv (run evs)" by (rule inv_run)
    then show ?thesis
      unfolding merge_inv_def image_fields_exclusive_def unresolved_unmarked_def list_all_iff plain_def
      by simp
  qed
  with merge_frame [of cur b r] show ?thesis by blast
qed

theorem image_merge_invariant_witness:
  "distinct (replyIds (run (trace_reply @ [ImageSettled 0 None])))
   \<and> image_fields_exclusive (run (trace_reply @ [ImageSettled 0 None]))
   \<and> unresolved_unmarked (run trace_reply)
   \<and> awaiting_image (tasks (run trace_reply)) = [''4'']
   \<and> distinct (map msg_id (messages (chatState (app (run trace_reply)))))
   \<and> msg_id (messages (chatState (app (run trace_reply))) ! 2) = ''4''
   \<and> messages (chatState (app (run (trace_reply @ [ImageSettled 0 None]))))
      = (messages (chatState (app (run trace_reply))))
          [2 := (messages (chatState (app (run trace_reply))) ! 2)\<lparr>imageError := Some True\<rparr>]"
proof -
  have r: "run (trace_reply @ [ImageSettled 0 None]) = step state_reply (ImageSettled 0 None)"
    by (simp add: run_snoc run_trace_reply)
  have d1: "distinct (replyIds (run (trace_reply @ [ImageSettled 0 None])))"
    by (simp add: r state_reply_def)
  have d0: "distinct (replyIds (run trace_reply))"
    by (simp add: run_trace_reply state_reply_def)
  have aw: "awaiting_image (tasks (run trace_reply)) = [''4'']"
    by (simp add: run_trace_reply state_reply_def awaiting_image_def)
  have ids: "distinct (map msg_id (messages (chatState (app (run trace_reply)))))"
    by (simp add: run_trace_reply state_reply_def)
  have two: "2 < length (messages (chatState (app (run trace_reply))))"
            "msg_id (messages (chatState (app (run trace_reply))) ! 2) = ''4''"
    by (simp_all add: run_trace_reply state_reply_def)
  have m: "messages (chatState (app (run (trace_reply @ [ImageSettled 0 None]))))
           = messages (chatState (handleSendMessage_image ''4'' None (app (run trace_reply))))"
    by (simp add: r run_trace_reply state_reply_def)
  have p: "patchImage ''4'' None (messages (chatState (app (run trace_reply))) ! 2)
           = (messages (chatState (app (run trace_reply))) ! 2)\<lparr>imageError := Some True\<rparr>"
    using two(2) by (simp add: patchImage_def)
  from image_merge_invariant [of "trace_reply @ [ImageSettled 0 None]" "app (run trace_reply)" "''4''" None]
       image_merge_invariant [of trace_reply "app (run trace_reply)" "''4''" None]
       d1 d0 aw ids two m p
  show ?thesis unfolding Let_def by metis
qed

text \<open>
  Without distinct reply identifiers the first part fails: two replies committed in the
  same millisecond share an identifier, and each image answer patches both.
\<close>

lemma trim_How: "trim ''How?'' = ''How?''"
  by (simp add: trim_def is_js_whitespace_def)

lemma string_of_nat_3: "string_of_nat 3 = ''3''"
  by (simp add: string_of_nat.simps digit_char_def)

lemma reply_id_collision_marks_both:
  "replyIds (run trace_collision) = [''4'', ''4'']
   \<and> map (\<lambda>m. (msg_id m, imageUrl m, imageError m)) (messages (chatState (app (run trace_collision))))
     = [(''welcome'', None, None), (''2'', None, None), (''4'', Some picture, Some True),
        (''3'', None, None), (''4'', Some picture, Some True)]"
proof -
  have "run trace_collision =
          foldl step state_reply [TypeInput ''How?'', Submit 3 3, TextSettled 1 (Inr because) 3 3,
                    ImageSettled 0 (Some picture), ImageSettled 1 None]"
    using run_trace_reply by (simp add: trace_collision_def run_def)
  then show ?thesis
    by (simp add: state_reply_def handleSendMessage_submit_def handleSendMessage_text_def
        handleSendMessage_image_def patchImage_def generateTutorResponse_def because_def
        or_else_def first_groundingChunks_def trim_How string_of_nat_3 string_of_nat_4
        picture_def Let_def)
qed

subsection \<open>A null image answer\<close>

text \<open>
  In a run whose reply identifiers are pairwise distinct, a null image answer for a reply
  keeps the order of the identifiers, and every message with the reply's identifier ends
  with \<open>imageError = true\<close> and no \<open>imageUrl\<close>, whatever was appended in between.
\<close>

lemma awaiting_image_member:
  assumes "k < length ts" and "task_phase (ts ! k) = AwaitImage b"
  shows "b \<in> set (awaiting_image ts)"
  using awaiting_image_update(2) [OF assms(1)] assms(2) by (simp add: awaiting_image_single)

lemma null_image_under_distinct_ids:
  assumes "distinct (replyIds (run evs))"
      and "k < length (tasks (run evs))"
      and "task_phase (tasks (run evs) ! k) = AwaitImage b"
  shows "map msg_id (messages (chatState (app (step (run evs) (ImageSettled k None)))))
           = map msg_id (messages (chatState (app (run evs))))
         \<and> list_all (\<lambda>m. msg_id m = b \<longrightarrow> imageError m = Some True \<and> imageUrl m = None)
               (messages (chatState (app (step (run evs) (ImageSettled k None)))))"
proof -
  from assms(1) have "merge_inv (run evs)" by (rule inv_run)
  moreover have "b \<in> set (awaiting_image (tasks (run evs)))"
    using assms(2,3) by (rule awaiting_image_member)
  ultimately have p: "\<forall>m \<in> set (messages (chatState (app (run evs)))). msg_id m = b \<longrightarrow> plain m"
    unfolding merge_inv_def by simp
  have st: "messages (chatState (app (step (run evs) (ImageSettled k None))))
            = map (patchImage b None) (messages (chatState (app (run evs))))"
    using assms(2,3) by (simp add: handleSendMessage_image_def)
  have "imageError (patchImage b None m) = Some True \<and> imageUrl (patchImage b None m) = None"
    if "m \<in> set (messages (chatState (app (run evs))))" and "msg_id m = b" for m
    using p that by (simp add: patchImage_def plain_def)
  then show ?thesis
    unfolding st list_all_iff by (simp add: comp_def)
qed

text \<open>
  C3: the specification says that, in every conversation state, a null image answer for a
  reply leaves the message with that identifier with \<open>imageError = true\<close> and no
  \<open>imageUrl\<close>. The identifiers are \<open>Date.now() + 1\<close>, so the code does not keep them
  unique: here the second reply is committed in the millisecond of the first and gets
  identifier 4 as well. The image answer for the first reply puts the picture on both
  messages; the null answer for the second reply then spreads
  \<open>{...msg, imageError: true}\<close> over both, which keeps the \<open>imageUrl\<close>. The second reply
  ends with both fields set.
\<close>

theorem null_image_keeps_url_after_collision:
  "replyIds (run trace_second_reply) = [''4'', ''4'']
   \<and> map task_phase (tasks (run trace_second_reply)) = [Finished, AwaitImage ''4'']
   \<and> map (\<lambda>m. (msg_id m, role m, imageUrl m, imageError m))
          (messages (chatState (app (step (run trace_second_reply) (ImageSettled 1 None)))))
     = [(''welcome'', Model, None, None), (''2'', User, None, None),
        (''4'', Model, Some picture, Some True), (''3'', User, None, None),
        (''4'', Model, Some picture, Some True)]"
proof -
  have "run trace_second_reply =
          foldl step state_reply [TypeInput ''How?'', Submit 3 3, TextSettled 1 (Inr because) 3 3,
                    ImageSettled 0 (Some picture)]"
    using run_trace_reply by (simp add: trace_second_reply_def run_def)
  then show ?thesis
    by (simp add: state_reply_def handleSendMessage_submit_def handleSendMessage_text_def
        handleSendMessage_image_def patchImage_def generateTutorResponse_def because_def
        or_else_def first_groundingChunks_def trim_How string_of_nat_3 string_of_nat_4
        picture_def Let_def)
qed

section \<open>Properties of the audio playback controller\<close>

lemma decodePCM_three_samples: "decodePCM ''/v8AgP9/'' = Inr three_samples"
  by (simp add: decodePCM_def base64ToBytes_def atob_v8AgP9 Int16Array_def createBuffer_def
      three_samples_def)

text \<open>
  C7: the specification says that two toggles in succession, the second without awaiting
  the first, reach the playing state exactly once. With an audio context that is created
  suspended, the first handler awaits \<open>ctx.resume()\<close> before it sets the state to
  loading, so the button is still enabled for the second press. Both handlers then ask
  for speech and both start a source: the state is set to playing twice, two sources play
  at once and \<open>sourceNodeRef\<close> knows only the second. One audio context is constructed.
\<close>

theorem double_toggle_starts_two_sources:
  "audioState (bubble (play_run [Toggle Suspended])) = Idle
   \<and> handlers (play_run [Toggle Suspended, Toggle Suspended]) = [AwaitResume, AwaitResume]
   \<and> contextsConstructed (bubble (play_run double_toggle)) = 1
   \<and> speechRequests (bubble (play_run double_toggle)) = 2
   \<and> stateUpdates (bubble (play_run double_toggle)) = [Loading, Loading, Playing, Playing]
   \<and> sourcesStarted (bubble (play_run double_toggle)) = [0, 1]
   \<and> sourcesStopped (bubble (play_run double_toggle)) = []
   \<and> sourceNodeRef (bubble (play_run double_toggle)) = Some 1"
  by (simp add: play_run_def double_toggle_def mounted_def handlePlayAudio_def
      handlePlayAudio_resumed_def handlePlayAudio_loading_def handlePlayAudio_speech_def
      setAudioState_def startSource_def decodePCM_three_samples Let_def)

text \<open>
  The parts of C7 that hold: a bubble never constructs a second audio context, a press
  while the rendered state is loading does nothing, and a press while it is playing stops
  the source of \<open>sourceNodeRef\<close> and sets the state to idle without awaiting anything.
\<close>

lemma context_count:
  "contextsConstructed (bubble (play_run evs))
     = (case audioContextRef (bubble (play_run evs)) of None \<Rightarrow> 0 | Some ctx \<Rightarrow> 1)"
proof (induction evs rule: rev_induct)
  case Nil
  show ?case by (simp add: play_run_def mounted_def)
next
  case (snoc e evs)
  have s: "play_run (evs @ [e]) = play_step (play_run evs) e" by (simp add: play_run_def)
  show ?case
    unfolding s using snoc.IH
    by (cases e)
       (auto simp add: handlePlayAudio_def handlePlayAudio_resumed_def
          handlePlayAudio_loading_def handlePlayAudio_speech_def setAudioState_def
          startSource_def catchPlaybackError_def onended_def Let_def
          split: option.splits sum.splits prod.splits if_splits)
qed

lemma one_context_per_bubble: "contextsConstructed (bubble (play_run evs)) \<le> 1"
  unfolding context_count by (simp split: option.split)

lemma toggle_while_loading:
  "audioState (bubble s) = Loading \<Longrightarrow> play_step s (Toggle fresh) = s"
  by simp

lemma toggle_while_playing:
  "audioState (bubble s) = Playing \<Longrightarrow>
     audioState (bubble (play_step s (Toggle fresh))) = Idle
     \<and> handlers (play_step s (Toggle fresh)) = handlers s @ [Returned]
     \<and> sourcesStopped (bubble (play_step s (Toggle fresh)))
         = sourcesStopped (bubble s) @ (case sourceNodeRef (bubble s) of None \<Rightarrow> [] | Some source \<Rightarrow> [source])
     \<and> speechRequests (bubble (play_step s (Toggle fresh))) = speechRequests (bubble s)"
  by (simp add: handlePlayAudio_def setAudioState_def split: option.split)

end
